theory Spec2Isabelle
  imports Main "HOL-Library.Sublist" "HOL-Library.Char_ord" "HOL-Library.List_Lexorder"
begin

section \<open>Strings and character classes\<close>

text \<open>
  Python strings are modelled as \<open>string\<close>: a character is a code point below 256, the
  Latin-1 range of Unicode, and \<open>of_char\<close> reads the code point. On that range
  \<open>str.lower()\<close>, \<open>str.strip()\<close> and the regular-expression classes \<open>\w\<close> (which \<open>\b\<close>
  looks at) and \<open>\s\<close> are the ones Python has for \<open>str\<close>: \<open>U+00E9\<close> is a word character,
  \<open>U+0085\<close> and \<open>U+00A0\<close> are white space, \<open>U+00C0\<close> is lower-cased to \<open>U+00E0\<close>. A text
  with a code point above 255 is outside the type.
\<close>

text \<open>The ranges \<open>A-Z\<close>, \<open>a-z\<close> and \<open>0-9\<close> of the source's character sets.\<close>

definition is_upper :: "char \<Rightarrow> bool" where
  "is_upper c = (65 \<le> (of_char c :: nat) \<and> (of_char c :: nat) \<le> 90)"

definition is_lower :: "char \<Rightarrow> bool" where
  "is_lower c = (97 \<le> (of_char c :: nat) \<and> (of_char c :: nat) \<le> 122)"

definition is_digit :: "char \<Rightarrow> bool" where
  "is_digit c = (48 \<le> (of_char c :: nat) \<and> (of_char c :: nat) \<le> 57)"

text \<open>
  \<open>[A-Za-z_]\<close>, the first character of the captured identifier. Under \<open>re.IGNORECASE\<close> the
  set matches no further code point below 256.
\<close>

definition is_ident_start :: "char \<Rightarrow> bool" where
  "is_ident_start c = (is_upper c \<or> is_lower c \<or> c = CHR ''_'')"

text \<open>\<open>[A-Za-z0-9_]\<close>, with and without \<open>re.IGNORECASE\<close>.\<close>

definition is_ident_char :: "char \<Rightarrow> bool" where
  "is_ident_char c = (is_upper c \<or> is_lower c \<or> is_digit c \<or> c = CHR ''_'')"

text \<open>
  \<open>\w\<close> for a \<open>str\<close> pattern, the class \<open>\b\<close> looks at: the underscore and every code point
  that \<open>str.isalnum()\<close> accepts. Below 256 these are the ASCII letters and digits, the
  ordinal indicators \<open>U+00AA\<close> and \<open>U+00BA\<close>, the micro sign \<open>U+00B5\<close>, the superscript
  digits \<open>U+00B2\<close>, \<open>U+00B3\<close>, \<open>U+00B9\<close>, the fractions \<open>U+00BC\<close> to \<open>U+00BE\<close> and the
  letters \<open>U+00C0\<close> to \<open>U+00FF\<close> without the signs \<open>U+00D7\<close> and \<open>U+00F7\<close>.
\<close>

definition is_word_char :: "char \<Rightarrow> bool" where
  "is_word_char c =
     (is_ident_char c
      \<or> (of_char c :: nat) = 170 \<or> (of_char c :: nat) = 178 \<or> (of_char c :: nat) = 179
      \<or> (of_char c :: nat) = 181 \<or> (of_char c :: nat) = 185 \<or> (of_char c :: nat) = 186
      \<or> (188 \<le> (of_char c :: nat) \<and> (of_char c :: nat) \<le> 190)
      \<or> (192 \<le> (of_char c :: nat) \<and> (of_char c :: nat) \<le> 214)
      \<or> (216 \<le> (of_char c :: nat) \<and> (of_char c :: nat) \<le> 246)
      \<or> 248 \<le> (of_char c :: nat))"

text \<open>
  \<open>\s\<close> and \<open>str.strip()\<close>: tab, line feed, vertical tab, form feed, carriage return, the
  four separators 28..31, the space, the next-line control \<open>U+0085\<close> and the no-break
  space \<open>U+00A0\<close>.
\<close>

definition is_space :: "char \<Rightarrow> bool" where
  "is_space c =
     ((9 \<le> (of_char c :: nat) \<and> (of_char c :: nat) \<le> 13)
      \<or> (28 \<le> (of_char c :: nat) \<and> (of_char c :: nat) \<le> 32)
      \<or> (of_char c :: nat) = 133 \<or> (of_char c :: nat) = 160)"

text \<open>
  The code points that \<open>str.lower()\<close> changes: \<open>A\<close> to \<open>Z\<close>, \<open>U+00C0\<close> to \<open>U+00D6\<close> and
  \<open>U+00D8\<close> to \<open>U+00DE\<close>. Each goes to the code point 32 above it.
\<close>

definition is_cased_upper :: "char \<Rightarrow> bool" where
  "is_cased_upper c =
     (is_upper c
      \<or> (192 \<le> (of_char c :: nat) \<and> (of_char c :: nat) \<le> 214)
      \<or> (216 \<le> (of_char c :: nat) \<and> (of_char c :: nat) \<le> 222))"

definition lower_char :: "char \<Rightarrow> char" where
  "lower_char c = (if is_cased_upper c then char_of ((of_char c :: nat) + 32) else c)"

text \<open>\<open>s.lower()\<close>\<close>

definition lower :: "string \<Rightarrow> string" where
  "lower s = map lower_char s"

text \<open>\<open>s.startswith(p)\<close>\<close>

fun startswith :: "string \<Rightarrow> string \<Rightarrow> bool" where
  "startswith s [] = True"
| "startswith [] (p # ps) = False"
| "startswith (c # cs) (p # ps) = (if c = p then startswith cs ps else False)"

text \<open>\<open>s.endswith(p)\<close>\<close>

definition endswith :: "string \<Rightarrow> string \<Rightarrow> bool" where
  "endswith s p = startswith (rev s) (rev p)"

text \<open>\<open>f in s\<close> for strings: \<open>f\<close> occurs in \<open>s\<close> as a contiguous substring.\<close>

fun str_in :: "string \<Rightarrow> string \<Rightarrow> bool" where
  "str_in f [] = (f = [])"
| "str_in f (c # cs) = (if startswith (c # cs) f then True else str_in f cs)"

text \<open>\<open>s.strip()\<close>\<close>

definition strip :: "string \<Rightarrow> string" where
  "strip s = rev (dropWhile is_space (rev (dropWhile is_space s)))"

section \<open>The statement validator (\<open>_is_safe_statement\<close> of \<open>db.py\<close>)\<close>

definition forbidden :: "string list" where
  "forbidden = [''drop '', ''delete '', ''update '', ''insert '', ''alter '', ''attach '',
     ''detach '', ''vacuum'', ''pragma'', ''--'', ''/*'', ''sqlite_master'']"

text \<open>
  The function has three \<open>return\<close> statements. \<open>safe_exit\<close> follows its control flow and
  says which one is taken: the one under \<open>sql.count(";") > 1\<close>, the one inside the loop over
  \<open>forbidden\<close> (with the entry that matched), or the final \<open>return True\<close>.
\<close>

datatype safe_exit = MultiStatementExit | ForbiddenExit string | SafeExit

fun first_forbidden :: "string list \<Rightarrow> string \<Rightarrow> string option" where
  "first_forbidden [] low = None"
| "first_forbidden (f # fs) low = (if str_in f low then Some f else first_forbidden fs low)"

definition is_safe_exit :: "string \<Rightarrow> safe_exit" where
  "is_safe_exit sql =
     (let low = lower sql in
      if count_list sql (CHR '';'') > 1 then MultiStatementExit
      else case first_forbidden forbidden low of
             Some f \<Rightarrow> ForbiddenExit f
           | None \<Rightarrow> SafeExit)"

text \<open>The Boolean the source returns: \<open>True\<close> only at the last \<open>return\<close>.\<close>

definition is_safe_statement :: "string \<Rightarrow> bool" where
  "is_safe_statement sql = (is_safe_exit sql = SafeExit)"

section \<open>The table reference extractor (\<open>_extract_table_names\<close> of \<open>db.py\<close>)\<close>

text \<open>
  \<open>\b\<close> at a position: the character before it (\<open>None\<close> at the start of the text) and the
  character after it (none at the end) differ in being word characters.
\<close>

definition at_word_boundary :: "char option \<Rightarrow> string \<Rightarrow> bool" where
  "at_word_boundary prev s =
     ((case prev of None \<Rightarrow> False | Some p \<Rightarrow> is_word_char p)
      \<noteq> (case s of [] \<Rightarrow> False | c # _ \<Rightarrow> is_word_char c))"

text \<open>The character before the position reached after consuming \<open>consumed\<close>.\<close>

definition prev_after :: "char option \<Rightarrow> string \<Rightarrow> char option" where
  "prev_after prev consumed = (if consumed = [] then prev else Some (last consumed))"

text \<open>
  A literal under \<open>re.IGNORECASE\<close>: the text starts with \<open>k\<close>, character by character, up to
  the case of letters (two code points below 256 match when they have the same lower-case
  form).
\<close>

fun match_ci :: "string \<Rightarrow> string \<Rightarrow> bool" where
  "match_ci s [] = True"
| "match_ci [] (p # ps) = False"
| "match_ci (c # cs) (p # ps) =
     (if lower_char c = lower_char p then match_ci cs ps else False)"

text \<open>
  One attempt of \<open>\b(?:from|join)\s+([A-Za-z_][A-Za-z0-9_]*)\<close> (with \<open>re.IGNORECASE\<close>) at a
  position: the captured group and the text after the match. Both \<open>\s+\<close> and the identifier
  are greedy, and giving characters back never helps, since a space is no identifier character.
  The identifier is taken by the ASCII set of the pattern, the boundary by \<open>\w\<close>.
\<close>

definition match_from_join :: "char option \<Rightarrow> string \<Rightarrow> (string \<times> string) option" where
  "match_from_join prev s =
     (if \<not> at_word_boundary prev s then None
      else if match_ci s ''from'' \<or> match_ci s ''join''
      then (let r = drop 4 s; r' = dropWhile is_space r in
            if takeWhile is_space r = [] then None
            else case r' of
                   [] \<Rightarrow> None
                 | c # _ \<Rightarrow> if is_ident_start c
                            then Some (takeWhile is_ident_char r', dropWhile is_ident_char r')
                            else None)
      else None)"

text \<open>
  \<open>re.finditer\<close>: scan from the left; after a match continue behind it, otherwise move one
  character on. The result lists group 1 of every match.
\<close>

function finditer_from_join :: "char option \<Rightarrow> string \<Rightarrow> string list" where
  "finditer_from_join prev [] = []"
| "finditer_from_join prev (c # cs) =
     (case match_from_join prev (c # cs) of
        Some (name, rest) \<Rightarrow> name # finditer_from_join (prev_after (Some c) name) rest
      | None \<Rightarrow> finditer_from_join (Some c) cs)"
  by pat_completeness auto
termination
proof (relation "measure (\<lambda>(prev, s). length s)")
  show "wf (measure (\<lambda>(prev, s). length s))" by simp
next
  fix prev :: "char option" and c :: char and cs x2 name rest
  assume m: "match_from_join prev (c # cs) = Some x2" and x: "(name, rest) = x2"
  from m x have "rest = dropWhile is_ident_char (dropWhile is_space (drop 4 (c # cs)))"
    by (auto simp: match_from_join_def Let_def split: if_splits list.splits)
  moreover have "length (dropWhile is_ident_char (dropWhile is_space (drop 4 (c # cs))))
                 \<le> length (drop 4 (c # cs))"
    by (meson length_dropWhile_le order_trans)
  ultimately have "length rest < length (c # cs)" by simp
  then show "((prev_after (Some c) name, rest), (prev, c # cs)) \<in> measure (\<lambda>(prev, s). length s)"
    by simp
next
  fix prev :: "char option" and c :: char and cs
  show "((Some c, cs), (prev, c # cs)) \<in> measure (\<lambda>(prev, s). length s)" by simp
qed

text \<open>One attempt of \<open>\bk\b\<close> (with \<open>re.IGNORECASE\<close>) at a position.\<close>

definition match_word :: "string \<Rightarrow> char option \<Rightarrow> string \<Rightarrow> bool" where
  "match_word k prev s =
     (if \<not> at_word_boundary prev s then False
      else if \<not> match_ci s k then False
      else at_word_boundary (prev_after prev (take (length k) s)) (drop (length k) s))"

text \<open>\<open>re.search\<close>: is there a position where the pattern matches?\<close>

fun search_word :: "string \<Rightarrow> char option \<Rightarrow> string \<Rightarrow> bool" where
  "search_word k prev [] = match_word k prev []"
| "search_word k prev (c # cs) =
     (if match_word k prev (c # cs) then True else search_word k (Some c) cs)"

definition known :: "string list" where
  "known = [''meter_table'', ''customer_table'', ''revenue_data'']"

text \<open>
  The set \<open>tables\<close> is returned as \<open>sorted(tables)\<close>: a list without duplicates in the order
  of Python's string comparison, which is the lexicographic order on character codes.
\<close>

definition extract_table_names :: "string \<Rightarrow> string list" where
  "extract_table_names sql =
     sort (remdups (map lower (finditer_from_join None sql)
                    @ filter (\<lambda>k. search_word k None sql) known))"

section \<open>The role policy (\<open>security.py\<close>)\<close>

definition ROLE_TABLES :: "(string \<times> string list) list" where
  "ROLE_TABLES =
     [(''admin'', [''meter_table'', ''customer_table'', ''revenue_data'']),
      (''planner'', [''meter_table'', ''customer_table''])]"

text \<open>
  The argument is \<open>None\<close> for Python's \<open>None\<close>; \<open>role or ""\<close> turns it into the empty string.
\<close>

definition allowed_tables_for_role :: "string option \<Rightarrow> string list" where
  "allowed_tables_for_role role =
     (let role = lower (case role of None \<Rightarrow> [] | Some r \<Rightarrow> r) in
      case map_of ROLE_TABLES role of Some ts \<Rightarrow> ts | None \<Rightarrow> [])"

section \<open>The bounded executor (\<open>secure_run_query\<close> of \<open>db.py\<close>)\<close>

text \<open>\<open>str(n)\<close> for an integer: its decimal digits, with a minus sign when negative.\<close>

fun str_nat :: "nat \<Rightarrow> string" where
  "str_nat n =
     (if n < 10 then [char_of (48 + n)]
      else str_nat (n div 10) @ [char_of (48 + n mod 10)])"

declare str_nat.simps [simp del]

definition str_int :: "int \<Rightarrow> string" where
  "str_int i = (if i < 0 then CHR ''-'' # str_nat (nat (- i)) else str_nat (nat i))"

text \<open>
  Lines 91 to 96: the statement that will be executed. A statement whose stripped,
  lower-cased text starts with \<open>select\<close>, has no \<open>" limit "\<close> in it and does not end in
  \<open>limit\<close> loses one final \<open>;\<close> and gets \<open>LIMIT max_rows;\<close> appended; any other statement is
  only stripped.
\<close>

definition add_limit :: "string \<Rightarrow> int \<Rightarrow> string" where
  "add_limit sql max_rows =
     (let q = strip sql; low = lower q in
      if startswith low ''select'' \<and> \<not> str_in '' limit '' low \<and> \<not> endswith low ''limit''
      then (let q' = (if endswith q '';'' then butlast q else q)
            in q' @ '' LIMIT '' @ str_int max_rows @ '';'')
      else q)"

text \<open>The tokens the authorization loop passes over (line 102).\<close>

definition skip_tokens :: "string list" where
  "skip_tokens = [[], '','', ''select'', ''from'', ''where'', ''join'', ''on'', ''group'',
     ''by'', ''order'']"

text \<open>
  \<open>re.match(r"[a-zA-Z0-9_]+\(|'|\"", t)\<close> (line 105): at the start of \<open>t\<close>, a run of
  identifier characters followed by an opening parenthesis, or a quote character.
\<close>

definition looks_like_call :: "string \<Rightarrow> bool" where
  "looks_like_call t =
     ((takeWhile is_ident_char t \<noteq> []
        \<and> (case dropWhile is_ident_char t of [] \<Rightarrow> False | c # _ \<Rightarrow> c = CHR ''(''))
      \<or> (case t of [] \<Rightarrow> False | c # _ \<Rightarrow> c = CHR 0x27 \<or> c = CHR 0x22))"

text \<open>
  The loop of lines 101 to 108: the first table, in the order of the list, that is neither
  skipped nor allowed; \<open>None\<close> when the loop runs to its end.
\<close>

fun first_unauthorized :: "string list \<Rightarrow> string list \<Rightarrow> string option" where
  "first_unauthorized [] allowed = None"
| "first_unauthorized (t # ts) allowed =
     (if t \<in> set skip_tokens then first_unauthorized ts allowed
      else if looks_like_call t then first_unauthorized ts allowed
      else if t \<notin> set allowed then Some t
      else first_unauthorized ts allowed)"

text \<open>
  The dictionaries the function returns: \<open>{"error": msg}\<close>,
  \<open>{"error": msg, "unauthorized_table": t}\<close> and \<open>{"rows": rows, "columns": col_names}\<close>.
\<close>

datatype 'r query_result =
    ErrorResult string
  | UnauthorizedResult string string
  | RowsResult "'r list" "string list"

definition unsafe_message :: string where
  "unsafe_message = ''Unsafe or disallowed SQL statement detected.''"

definition unauthorized_message :: "string \<Rightarrow> string" where
  "unauthorized_message t =
     ''unauthorized_table_access: '' @ [CHR 0x27] @ t @ [CHR 0x27]
       @ '' is not permitted for your role''"

text \<open>
  The database is not part of the repository, so it enters as a parameter. A connection is
  the committed content of the database file, the working copy of the open transaction (if
  any) and whether the handle is open. The engine says whether \<open>BEGIN\<close> raises, what
  executing a statement and fetching its rows does to the working copy and whether it
  raises (\<open>Inl\<close> the message of the exception, \<open>Inr\<close> the rows and \<open>cursor.description\<close>),
  and whether \<open>commit\<close> raises.
\<close>

record 's connection =
  committed :: 's
  txn :: "'s option"
  is_open :: bool

record ('s, 'r) engine =
  on_begin :: "'s \<Rightarrow> string option"
  on_execute :: "string \<Rightarrow> 's \<Rightarrow> 's \<times> (string + ('r list \<times> string list option))"
  on_commit :: "'s \<Rightarrow> string option"

definition connect :: "'s \<Rightarrow> 's connection" where
  "connect db = \<lparr>committed = db, txn = None, is_open = True\<rparr>"

definition begin_txn :: "'s connection \<Rightarrow> 's connection" where
  "begin_txn conn = conn\<lparr>txn := Some (committed conn)\<rparr>"

definition commit :: "'s connection \<Rightarrow> 's connection" where
  "commit conn =
     (case txn conn of None \<Rightarrow> conn | Some w \<Rightarrow> conn\<lparr>committed := w, txn := None\<rparr>)"

definition rollback :: "'s connection \<Rightarrow> 's connection" where
  "rollback conn = conn\<lparr>txn := None\<rparr>"

definition close :: "'s connection \<Rightarrow> 's connection" where
  "close conn = conn\<lparr>txn := None, is_open := False\<rparr>"

text \<open>
  Lines 110 to 123. Every \<open>Inl\<close>/\<open>Some\<close> message is an exception caught by
  \<open>except Exception\<close>: the handler rolls back and returns the message; \<open>finally\<close> closes the
  connection on every path. \<open>sqlite3.connect\<close>, \<open>rollback\<close> and \<open>close\<close> themselves are taken
  not to raise.
\<close>

definition run_transaction ::
  "('s, 'r) engine \<Rightarrow> string \<Rightarrow> 's \<Rightarrow> 'r query_result \<times> 's connection" where
  "run_transaction eng q db =
     (let conn = connect db in
      case on_begin eng (committed conn) of
        Some e \<Rightarrow> (ErrorResult e, close (rollback conn))
      | None \<Rightarrow>
          (let conn = begin_txn conn in
           case on_execute eng q (committed conn) of
             (w, Inl e) \<Rightarrow> (ErrorResult e, close (rollback (conn\<lparr>txn := Some w\<rparr>)))
           | (w, Inr (rows, description)) \<Rightarrow>
               (let conn = conn\<lparr>txn := Some w\<rparr>;
                    col_names = (case description of None \<Rightarrow> [] | Some d \<Rightarrow> d)
                in case on_commit eng w of
                     Some e \<Rightarrow> (ErrorResult e, close (rollback conn))
                   | None \<Rightarrow> (RowsResult rows col_names, close (commit conn)))))"

text \<open>
  The whole function. The second component is the connection the call leaves behind;
  it is \<open>None\<close> on the two early returns, which are taken before \<open>sqlite3.connect\<close>.
\<close>

definition secure_run_query ::
  "('s, 'r) engine \<Rightarrow> string \<Rightarrow> string list \<Rightarrow> int \<Rightarrow> 's
     \<Rightarrow> 'r query_result \<times> 's connection option" where
  "secure_run_query eng sql role_allowed_tables max_rows db =
     (if \<not> is_safe_statement sql then (ErrorResult unsafe_message, None)
      else
        (let q = add_limit sql max_rows;
             tables = extract_table_names sql
         in case first_unauthorized tables role_allowed_tables of
              Some t \<Rightarrow> (UnauthorizedResult (unauthorized_message t) t, None)
            | None \<Rightarrow> (case run_transaction eng q db of (res, conn) \<Rightarrow> (res, Some conn))))"



text \<open>The legacy wrapper \<open>run_query\<close> (lines 126 to 135).\<close>

definition run_query ::
  "('s, 'r) engine \<Rightarrow> string \<Rightarrow> int \<Rightarrow> 's \<Rightarrow> 'r query_result \<times> 's connection option" where
  "run_query eng query max_rows db =
     (let allowed = [''meter_table'', ''customer_table'', ''revenue_data'']
      in secure_run_query eng query allowed max_rows db)"

section \<open>The chart renderer (\<open>render_graph_png\<close> of \<open>chatbot_pipeline.py\<close>)\<close>

datatype py_error = IndexError | ValueError

text \<open>\<open>xs[i]\<close>: a negative index counts from the end; \<open>None\<close> is the \<open>IndexError\<close>.\<close>

definition py_index :: "'a list \<Rightarrow> int \<Rightarrow> 'a option" where
  "py_index xs i =
     (let n = int (length xs); j = (if i < 0 then n + i else i)
      in if 0 \<le> j \<and> j < n then Some (xs ! nat j) else None)"

text \<open>
  What the renderer takes from outside the repository: \<open>str\<close> and \<open>float\<close> on a cell,
  \<open>datetime.strptime\<close> (\<open>None\<close> when it raises) and the drawing of the chart, which turns the
  two series and the axis label into the encoded image.
\<close>

record ('c, 'dt, 'f, 'img) chart_env =
  str_of :: "'c \<Rightarrow> string"
  strptime :: "string \<Rightarrow> string \<Rightarrow> 'dt option"
  to_float :: "'c \<Rightarrow> 'f option"
  plot :: "'dt list \<Rightarrow> 'f list \<Rightarrow> string \<Rightarrow> 'img"

definition datetime_formats :: "string list" where
  "datetime_formats = [''%Y-%m-%d %H:%M:%S'', ''%Y-%m-%d %H:%M'', ''%Y-%m-%d'', ''%Y-%m'']"

definition week_format :: string where
  "week_format = ''%Y-W%W-%w''"

fun try_formats :: "(string \<Rightarrow> string \<Rightarrow> 'dt option) \<Rightarrow> string list \<Rightarrow> string \<Rightarrow> 'dt option" where
  "try_formats sp [] s = None"
| "try_formats sp (fmt # fmts) s =
     (case sp s fmt of Some d \<Rightarrow> Some d | None \<Rightarrow> try_formats sp fmts s)"

definition parse_datetime_safe :: "('c, 'dt, 'f, 'img) chart_env \<Rightarrow> 'c \<Rightarrow> 'dt option" where
  "parse_datetime_safe env val =
     (let s = str_of env val in
      case try_formats (strptime env) datetime_formats s of
        Some d \<Rightarrow> Some d
      | None \<Rightarrow> strptime env (s @ ''-1'') week_format)"

text \<open>
  The loop over \<open>enumerate(columns)\<close>: the first column whose lower-cased name contains
  \<open>date\<close> or \<open>time\<close>, and the first one that contains \<open>load\<close>, \<open>mw\<close>, \<open>kwh\<close> or \<open>revenue\<close>.
\<close>

fun detect_columns ::
  "nat \<Rightarrow> string list \<Rightarrow> nat option \<Rightarrow> nat option \<Rightarrow> nat option \<times> nat option" where
  "detect_columns i [] datetime_idx value_idx = (datetime_idx, value_idx)"
| "detect_columns i (col # cols) datetime_idx value_idx =
     (let c = lower col;
          d = (if datetime_idx = None \<and> (str_in ''date'' c \<or> str_in ''time'' c)
               then Some i else datetime_idx);
          v = (if value_idx = None
                  \<and> list_ex (\<lambda>x. str_in x c) [''load'', ''mw'', ''kwh'', ''revenue'']
               then Some i else value_idx)
      in detect_columns (Suc i) cols d v)"

text \<open>With the fallbacks: column 0 for the date, \<open>len(columns) - 1\<close> for the value.\<close>

definition column_indices :: "string list \<Rightarrow> int \<times> int" where
  "column_indices columns =
     (case detect_columns 0 columns None None of
        (d, v) \<Rightarrow>
          ((case d of None \<Rightarrow> 0 | Some i \<Rightarrow> int i),
           (case v of None \<Rightarrow> int (length columns) - 1 | Some i \<Rightarrow> int i)))"

text \<open>
  The body of the loop over the rows: the point a row contributes, or \<open>None\<close> when the row
  is passed over: the date does not parse, or one of \<open>r[datetime_idx]\<close>, \<open>r[value_idx]\<close>,
  \<open>float\<close> raises and \<open>except Exception: continue\<close> catches it.
\<close>

definition row_point ::
  "('c, 'dt, 'f, 'img) chart_env \<Rightarrow> int \<Rightarrow> int \<Rightarrow> 'c list \<Rightarrow> ('dt \<times> 'f) option" where
  "row_point env datetime_idx value_idx r =
     (case py_index r datetime_idx of
        None \<Rightarrow> None
      | Some c \<Rightarrow>
          (case parse_datetime_safe env c of
             None \<Rightarrow> None
           | Some dt \<Rightarrow>
               (case py_index r value_idx of
                  None \<Rightarrow> None
                | Some c' \<Rightarrow>
                    (case to_float env c' of
                       None \<Rightarrow> None
                     | Some val \<Rightarrow> Some (dt, val)))))"

fun collect_points ::
  "('c, 'dt, 'f, 'img) chart_env \<Rightarrow> int \<Rightarrow> int \<Rightarrow> 'c list list \<Rightarrow> 'dt list \<times> 'f list" where
  "collect_points env datetime_idx value_idx [] = ([], [])"
| "collect_points env datetime_idx value_idx (r # rs) =
     (case collect_points env datetime_idx value_idx rs of
        (dates, vals) \<Rightarrow>
          (case row_point env datetime_idx value_idx r of
             None \<Rightarrow> (dates, vals)
           | Some (dt, val) \<Rightarrow> (dt # dates, val # vals)))"

text \<open>
  \<open>xs[::step]\<close> keeps the first element, passes over the next \<open>step - 1\<close>, and so on;
  a step of 0 raises \<open>ValueError\<close>.
\<close>

function stride :: "nat \<Rightarrow> 'a list \<Rightarrow> 'a list" where
  "stride m [] = []"
| "stride m (x # xs) = x # stride m (drop m xs)"
  by pat_completeness auto
termination
  by (relation "measure (\<lambda>(m, xs). length xs)") auto

definition slice_step :: "nat \<Rightarrow> 'a list \<Rightarrow> 'a list option" where
  "slice_step step xs = (if step = 0 then None else Some (stride (step - 1) xs))"

definition MAX_POINTS :: nat where
  "MAX_POINTS = 200"

text \<open>Lines 110 to 114.\<close>

definition downsample :: "'a list \<Rightarrow> 'b list \<Rightarrow> py_error + ('a list \<times> 'b list)" where
  "downsample dates vals =
     (if length dates > MAX_POINTS
      then (let step = length dates div MAX_POINTS in
            case slice_step step dates of
              None \<Rightarrow> Inl ValueError
            | Some ds \<Rightarrow>
                (case slice_step step vals of
                   None \<Rightarrow> Inl ValueError
                 | Some vs \<Rightarrow> Inr (ds, vs)))
      else Inr (dates, vals))"

text \<open>
  The function: \<open>Inr None\<close> is the returned \<open>None\<close>, \<open>Inr (Some img)\<close> the returned image and
  \<open>Inl e\<close> an exception that leaves the function. \<open>columns[value_idx]\<close> for the axis label is
  read outside every \<open>try\<close>.
\<close>

definition render_graph_png ::
  "('c, 'dt, 'f, 'img) chart_env \<Rightarrow> 'c list list \<Rightarrow> string list \<Rightarrow> py_error + 'img option" where
  "render_graph_png env rows columns =
     (if rows = [] then Inr None
      else
        (case column_indices columns of
           (datetime_idx, value_idx) \<Rightarrow>
             (case collect_points env datetime_idx value_idx rows of
                (dates, vals) \<Rightarrow>
                  if dates = [] \<or> vals = [] then Inr None
                  else
                    (case downsample dates vals of
                       Inl e \<Rightarrow> Inl e
                     | Inr (ds, vs) \<Rightarrow>
                         (case py_index columns value_idx of
                            None \<Rightarrow> Inl IndexError
                          | Some label \<Rightarrow> Inr (Some (plot env ds vs label)))))))"

section \<open>Notions of the specification\<close>

text \<open>
  A name occurs in a text as a whole word, case-insensitively: some stretch of the text
  lower-cases to the name, and the characters next to it, if any, are no word characters.
\<close>

definition occurs_as_word :: "string \<Rightarrow> string \<Rightarrow> bool" where
  "occurs_as_word k s =
     (\<exists>a w b. s = a @ w @ b \<and> lower w = lower k
        \<and> (a = [] \<or> \<not> is_word_char (last a))
        \<and> (b = [] \<or> \<not> is_word_char (hd b)))"

text \<open>
  The keywords of the denylist as the specification lists them: the bare keywords, the two
  comment markers and the catalog table.
\<close>

definition denylist_keywords :: "string list" where
  "denylist_keywords = [''drop'', ''delete'', ''update'', ''insert'', ''alter'', ''attach'',
     ''detach'', ''vacuum'', ''pragma'', ''--'', ''/*'', ''sqlite_master'']"

section \<open>A small engine and chart environment for running the model\<close>

text \<open>
  The store is a list of rows with one column \<open>id\<close>. A statement returns every row, or the
  first \<open>n\<close> rows when it ends in \<open>LIMIT n;\<close>; a statement that contains \<open>syntax error\<close> raises;
  a statement that starts with \<open>replace\<close> adds a row to the working copy, and one that
  starts with \<open>drop\<close> empties it.
\<close>

fun digits_value :: "nat \<Rightarrow> string \<Rightarrow> nat" where
  "digits_value acc [] = acc"
| "digits_value acc (c # cs) = digits_value (acc * 10 + (of_char c - 48)) cs"

definition demo_limit :: "string \<Rightarrow> nat option" where
  "demo_limit q =
     (if endswith q '';''
      then (let body = butlast q;
                ds = rev (takeWhile is_digit (rev body));
                pre = rev (dropWhile is_digit (rev body))
            in if ds \<noteq> [] \<and> endswith pre '' LIMIT '' then Some (digits_value 0 ds) else None)
      else None)"

definition demo_execute :: "string \<Rightarrow> nat list \<Rightarrow> nat list \<times> (string + (nat list \<times> string list option))" where
  "demo_execute q w =
     (if str_in ''syntax error'' q then (w, Inl ''near syntax error'')
      else if startswith (lower q) ''replace'' then (w @ [0], Inr ([], None))
      else if startswith (lower q) ''drop'' then ([], Inr ([], None))
      else (w, Inr ((case demo_limit q of None \<Rightarrow> w | Some n \<Rightarrow> take n w), Some [''id''])))"

definition demo_engine :: "(nat list, nat) engine" where
  "demo_engine =
     \<lparr>on_begin = (\<lambda>db. None), on_execute = demo_execute, on_commit = (\<lambda>w. None)\<rparr>"

text \<open>
  Cells are strings; a date parses under the format \<open>%Y-%m-%d\<close> when it has ten characters
  with a dash at positions 4 and 7; a value converts when it consists of digits. The chart
  is the pair of series together with its label.
\<close>

definition demo_strptime :: "string \<Rightarrow> string \<Rightarrow> string option" where
  "demo_strptime s fmt =
     (if fmt = ''%Y-%m-%d'' \<and> length s = 10 \<and> s ! 4 = CHR ''-'' \<and> s ! 7 = CHR ''-''
      then Some s else None)"

definition demo_float :: "string \<Rightarrow> nat option" where
  "demo_float s = (if s \<noteq> [] \<and> list_all is_digit s then Some (digits_value 0 s) else None)"

definition demo_env :: "(string, string, nat, string list \<times> nat list \<times> string) chart_env" where
  "demo_env =
     \<lparr>str_of = (\<lambda>c. c), strptime = demo_strptime, to_float = demo_float,
      plot = (\<lambda>ds vs label. (ds, vs, label))\<rparr>"

section \<open>Concrete statements used below\<close>

definition scenario_A_sql :: string where
  "scenario_A_sql = ''SELECT * FROM revenue_data;''"

definition scenario_B_sql :: string where
  "scenario_B_sql = ''SELECT id FROM meter_table; DROP TABLE meter_table;''"

definition drop_sql :: string where
  "drop_sql = ''DROP TABLE meter_table''"

text \<open>The same statement with a tab after the keyword.\<close>

definition drop_tab_sql :: string where
  "drop_tab_sql = ''DROP'' @ [CHR 0x09] @ ''TABLE meter_table''"

definition comma_sql :: string where
  "comma_sql = ''SELECT * FROM meter_table, Revenue_data''"

definition two_tables_sql :: string where
  "two_tables_sql = ''SELECT * FROM revenue_data JOIN billing''"



definition literal_sql :: string where
  "literal_sql =
     ''SELECT * FROM meter_table WHERE x <> '' @ [CHR 0x27] @ '' limit '' @ [CHR 0x27]"

definition admin_tables :: "string list" where
  "admin_tables = [''meter_table'', ''customer_table'', ''revenue_data'']"



definition select_sql :: string where
  "select_sql = ''  SELECT * FROM meter_table;  ''"


text \<open>Statements with a code point above 127.\<close>

definition accent_sql :: string where
  "accent_sql = ''SELECT '' @ [CHR 0xE9] @ ''revenue_data''"

definition nbsp_from_sql :: string where
  "nbsp_from_sql = ''SELECT * FROM'' @ [CHR 0xA0] @ ''billing''"

definition nbsp_select_sql :: string where
  "nbsp_select_sql = [CHR 0xA0] @ ''SELECT id FROM meter_table''"

section \<open>Strings: auxiliary facts\<close>

lemma startswith_iff: "startswith s p \<longleftrightarrow> (\<exists>r. s = p @ r)"
  by (induction s p rule: startswith.induct) auto

lemma str_in_iff: "str_in f s \<longleftrightarrow> (\<exists>a b. s = a @ f @ b)"
proof (induction s)
  case Nil
  then show ?case by auto
next
  case (Cons c cs)
  show ?case
  proof
    assume "str_in f (c # cs)"
    then consider "startswith (c # cs) f" | "str_in f cs" by (auto split: if_splits)
    then show "\<exists>a b. c # cs = a @ f @ b"
    proof cases
      case 1
      then obtain r where "c # cs = f @ r" by (auto simp: startswith_iff)
      then have "c # cs = [] @ f @ r" by simp
      then show ?thesis by blast
    next
      case 2
      then obtain a b where "cs = a @ f @ b" using Cons.IH by auto
      then have "c # cs = (c # a) @ f @ b" by simp
      then show ?thesis by blast
    qed
  next
    assume "\<exists>a b. c # cs = a @ f @ b"
    then obtain a b where ab: "c # cs = a @ f @ b" by blast
    show "str_in f (c # cs)"
    proof (cases a)
      case Nil
      with ab have "startswith (c # cs) f" by (auto simp: startswith_iff)
      then show ?thesis by simp
    next
      case (Cons x a')
      with ab have "cs = a' @ f @ b" by simp
      then have "str_in f cs" using Cons.IH by blast
      then show ?thesis by simp
    qed
  qed
qed

lemma of_char_lower_char:
  "is_cased_upper c \<Longrightarrow> (of_char (lower_char c) :: nat) = of_char c + 32"
  by (auto simp: lower_char_def is_cased_upper_def is_upper_def)

lemma lower_char_not_upper: "\<not> is_cased_upper (lower_char c)"
proof (cases "is_cased_upper c")
  case True
  then show ?thesis
    using of_char_lower_char [OF True] by (auto simp: is_cased_upper_def is_upper_def)
next
  case False
  then show ?thesis by (simp add: lower_char_def)
qed

lemma lower_char_idem: "lower_char (lower_char c) = lower_char c"
  using lower_char_not_upper [of c] by (simp add: lower_char_def [of "lower_char c"])

lemma lower_idem: "lower (lower s) = lower s"
  by (simp add: lower_def lower_char_idem)


lemma is_word_char_lower_char: "is_word_char (lower_char c) = is_word_char c"
proof (cases "is_cased_upper c")
  case True
  have "is_word_char c"
    using True by (auto simp: is_cased_upper_def is_word_char_def is_ident_char_def)
  moreover have "is_word_char (lower_char c)"
    using True of_char_lower_char [OF True]
    by (auto simp: is_cased_upper_def is_word_char_def is_ident_char_def is_upper_def
        is_lower_def)
  ultimately show ?thesis by simp
next
  case False
  then show ?thesis by (simp add: lower_char_def)
qed

lemma lower_eq_length: "lower w = lower k \<Longrightarrow> length w = length k"
  by (metis length_map lower_def)

lemma match_ci_iff:
  "match_ci s k \<longleftrightarrow> length k \<le> length s \<and> lower (take (length k) s) = lower k"
  by (induction s k rule: match_ci.induct) (auto simp: lower_def)

section \<open>The validator\<close>

lemma first_forbidden_None:
  "first_forbidden fs low = None \<longleftrightarrow> (\<forall>f\<in>set fs. \<not> str_in f low)"
  by (induction fs) auto

text \<open>
  C2. A statement with more than one \<open>;\<close> is rejected, and it is rejected at the
  multi-statement check, which comes before the loop over the forbidden entries: the
  function leaves through its first \<open>return False\<close> whatever the text contains.
\<close>

theorem multi_statement_rejected_first:
  "1 < count_list sql (CHR '';'')
   \<Longrightarrow> is_safe_exit sql = MultiStatementExit \<and> \<not> is_safe_statement sql"
  by (simp add: is_safe_exit_def is_safe_statement_def)

theorem multi_statement_rejected_first_witness:
  "1 < count_list scenario_B_sql (CHR '';'')
   \<and> str_in ''drop '' (lower scenario_B_sql)
   \<and> is_safe_exit scenario_B_sql = MultiStatementExit
   \<and> \<not> is_safe_statement scenario_B_sql"
proof -
  have h: "1 < count_list scenario_B_sql (CHR '';'')" by code_simp
  have k: "str_in ''drop '' (lower scenario_B_sql)" by code_simp
  show ?thesis using h k multi_statement_rejected_first [OF h] by simp
qed

text \<open>
  What the validator does reject: a statement whose lower-cased text contains one of the
  entries of \<open>forbidden\<close>, wherever the entry stands and however many \<open>;\<close> there are.
\<close>

lemma forbidden_entry_rejected:
  assumes "f \<in> set forbidden" and "str_in f (lower sql)"
  shows "\<not> is_safe_statement sql"
proof
  assume "is_safe_statement sql"
  then have "first_forbidden forbidden (lower sql) = None"
    by (auto simp: is_safe_statement_def is_safe_exit_def Let_def split: if_splits option.splits)
  with assms show False by (simp add: first_forbidden_None)
qed

text \<open>
  C3. The validator is to reject every statement with at most one \<open>;\<close> in which a keyword
  of the denylist occurs outside a quoted literal; its docstring says \<open>Reject dangerous SQL
  constructs before execution\<close>, and the one of \<open>secure_run_query\<close> says \<open>no DDL\<close>. The code
  does not do so for \<open>DROP TABLE meter_table\<close> with a tab instead of the space after the
  keyword. The statement has no \<open>;\<close> and no quote, \<open>drop\<close> stands in it as a whole word,
  and the only entry of \<open>forbidden\<close> for it is \<open>drop\<close> followed by a space: the validator
  accepts the statement, while it rejects the same statement written with a space. Called
  for the role \<open>planner\<close>, \<open>secure_run_query\<close> finds \<open>meter_table\<close> allowed, executes the
  statement and commits: on the small engine the store is empty afterwards.
\<close>

theorem drop_tab_statement_accepted:
  "count_list drop_tab_sql (CHR '';'') = 0
   \<and> CHR 0x27 \<notin> set drop_tab_sql
   \<and> CHR 0x22 \<notin> set drop_tab_sql
   \<and> ''drop'' \<in> set denylist_keywords
   \<and> search_word ''drop'' None drop_tab_sql
   \<and> is_safe_statement drop_tab_sql
   \<and> \<not> is_safe_statement drop_sql
   \<and> secure_run_query demo_engine drop_tab_sql
         (allowed_tables_for_role (Some ''planner'')) 200 [1, 2, 3]
       = (RowsResult [] [], Some \<lparr>committed = [], txn = None, is_open = False\<rparr>)"
  by code_simp

section \<open>The extractor\<close>

lemma prev_after_Cons: "prev_after prev (c # a) = prev_after (Some c) a"
  by (simp add: prev_after_def)

lemma search_word_iff:
  "search_word k prev s \<longleftrightarrow> (\<exists>a b. s = a @ b \<and> match_word k (prev_after prev a) b)"
proof (induction s arbitrary: prev)
  case Nil
  then show ?case by (simp add: prev_after_def)
next
  case (Cons c cs)
  show ?case
  proof
    assume "search_word k prev (c # cs)"
    then consider "match_word k prev (c # cs)" | "search_word k (Some c) cs"
      by (auto split: if_splits)
    then show "\<exists>a b. c # cs = a @ b \<and> match_word k (prev_after prev a) b"
    proof cases
      case 1
      then have "c # cs = [] @ (c # cs) \<and> match_word k (prev_after prev []) (c # cs)"
        by (simp add: prev_after_def)
      then show ?thesis by blast
    next
      case 2
      then obtain a b where "cs = a @ b" "match_word k (prev_after (Some c) a) b"
        using Cons.IH by blast
      then have "c # cs = (c # a) @ b \<and> match_word k (prev_after prev (c # a)) b"
        by (simp add: prev_after_Cons)
      then show ?thesis by blast
    qed
  next
    assume "\<exists>a b. c # cs = a @ b \<and> match_word k (prev_after prev a) b"
    then obtain a b where ab: "c # cs = a @ b" "match_word k (prev_after prev a) b" by blast
    show "search_word k prev (c # cs)"
    proof (cases a)
      case Nil
      with ab have "match_word k prev (c # cs)" by (simp add: prev_after_def)
      then show ?thesis by simp
    next
      case (Cons x a')
      with ab have "cs = a' @ b" "match_word k (prev_after (Some c) a') b"
        by (simp_all add: prev_after_Cons)
      then have "search_word k (Some c) cs" using Cons.IH by blast
      then show ?thesis by simp
    qed
  qed
qed

lemma occurs_as_word_search:
  assumes occ: "occurs_as_word k s"
    and k: "k \<noteq> []" "is_word_char (hd k)" "is_word_char (last k)"
  shows "search_word k None s"
proof -
  from occ obtain a w b where s: "s = a @ w @ b" and lw: "lower w = lower k"
    and pa: "a = [] \<or> \<not> is_word_char (last a)"
    and pb: "b = [] \<or> \<not> is_word_char (hd b)"
    by (auto simp: occurs_as_word_def)
  have len: "length w = length k" using lw by (rule lower_eq_length)
  with k have wne: "w \<noteq> []" by auto
  have "hd (lower w) = lower_char (hd w)" "last (lower w) = lower_char (last w)"
    using wne by (simp_all add: lower_def hd_map last_map)
  moreover have "hd (lower k) = lower_char (hd k)" "last (lower k) = lower_char (last k)"
    using k by (simp_all add: lower_def hd_map last_map)
  ultimately have "lower_char (hd w) = lower_char (hd k)"
    and "lower_char (last w) = lower_char (last k)"
    using lw by simp_all
  then have hw: "is_word_char (hd w)" and lw': "is_word_char (last w)"
    using k is_word_char_lower_char by metis+
  have b1: "at_word_boundary (prev_after None a) (w @ b)"
    using pa hw wne by (cases w) (auto simp: at_word_boundary_def prev_after_def)
  have b2: "at_word_boundary (prev_after (prev_after None a) w) b"
    using pb lw' wne by (cases b) (auto simp: at_word_boundary_def prev_after_def)
  have "match_word k (prev_after None a) (w @ b)"
    using b1 b2 lw len by (simp add: match_word_def match_ci_iff)
  with s show ?thesis by (auto simp: search_word_iff)
qed

lemma known_props:
  "k \<in> set known
   \<Longrightarrow> k \<noteq> [] \<and> is_word_char (hd k) \<and> is_word_char (last k) \<and> lower k = k"
  by (auto simp: known_def is_word_char_def is_ident_char_def is_lower_def is_upper_def
      is_cased_upper_def lower_def lower_char_def)

text \<open>
  C4. The result of the extractor has no duplicates, every name in it is lower-cased, and
  it contains every table name of the schema that occurs in the statement as a whole word,
  in whatever case and wherever it occurs. A whole word is what \<open>\b\<close> delimits: the
  characters next to it, if any, are no word characters of \<open>\w\<close>.
\<close>

theorem extract_table_names_overapproximates:
  "distinct (extract_table_names s)
   \<and> (\<forall>t \<in> set (extract_table_names s). lower t = t)
   \<and> (\<forall>k \<in> set known. occurs_as_word k s \<longrightarrow> k \<in> set (extract_table_names s))"
proof -
  have "distinct (extract_table_names s)"
    by (simp add: extract_table_names_def)
  moreover have "\<forall>t \<in> set (extract_table_names s). lower t = t"
    using known_props by (auto simp: extract_table_names_def lower_idem)
  moreover have "\<forall>k \<in> set known. occurs_as_word k s \<longrightarrow> k \<in> set (extract_table_names s)"
    using known_props occurs_as_word_search by (auto simp: extract_table_names_def)
  ultimately show ?thesis by blast
qed

theorem extract_table_names_overapproximates_witness:
  "''revenue_data'' \<in> set known
   \<and> occurs_as_word ''revenue_data'' comma_sql
   \<and> ''revenue_data'' \<in> set (extract_table_names comma_sql)
   \<and> lower ''revenue_data'' = ''revenue_data''"
proof -
  have k: "''revenue_data'' \<in> set known" by code_simp
  have "comma_sql = ''SELECT * FROM meter_table, '' @ ''Revenue_data'' @ []
        \<and> lower ''Revenue_data'' = lower ''revenue_data''
        \<and> (''SELECT * FROM meter_table, '' = []
            \<or> \<not> is_word_char (last ''SELECT * FROM meter_table, ''))
        \<and> ([] = [] \<or> \<not> is_word_char (hd []))"
    by code_simp
  then have o: "occurs_as_word ''revenue_data'' comma_sql"
    unfolding occurs_as_word_def by blast
  from extract_table_names_overapproximates [of comma_sql] k o
  show ?thesis by blast
qed

text \<open>
  Outside ASCII the word boundary is the one of \<open>\w\<close>: after the letter \<open>U+00E9\<close> the name
  \<open>revenue_data\<close> does not start a word and is not found; the no-break space \<open>U+00A0\<close> is
  white space, for \<open>\s+\<close> after \<open>FROM\<close> as well as for \<open>strip\<close>.
\<close>

lemma extractor_outside_ascii:
  "extract_table_names accent_sql = []
   \<and> extract_table_names nbsp_from_sql = [''billing'']
   \<and> add_limit nbsp_select_sql 5 = ''SELECT id FROM meter_table LIMIT 5;''"
  by code_simp

section \<open>The role policy\<close>

text \<open>
  C5, as stated, fails: \<open>ADMIN\<close> is no key of the policy, and it is given the three tables
  of \<open>admin\<close>, because the role is lower-cased before the lookup.
\<close>

theorem upper_case_role_counterexample:
  "map_of ROLE_TABLES ''ADMIN'' = None
   \<and> allowed_tables_for_role (Some ''ADMIN'')
       = [''meter_table'', ''customer_table'', ''revenue_data'']"
  by code_simp

text \<open>
  C5, amended. A role whose lower-cased form is no key of the policy (the empty string
  and \<open>None\<close> among them) is allowed no table; \<open>planner\<close> is allowed \<open>meter_table\<close> and
  \<open>customer_table\<close> and not \<open>revenue_data\<close>; \<open>admin\<close> is allowed the three tables.
\<close>

theorem allowed_tables_deny_by_default:
  "(map_of ROLE_TABLES (lower r) = None \<longrightarrow> allowed_tables_for_role (Some r) = [])
   \<and> allowed_tables_for_role None = []
   \<and> allowed_tables_for_role (Some []) = []
   \<and> allowed_tables_for_role (Some ''planner'') = [''meter_table'', ''customer_table'']
   \<and> ''revenue_data'' \<notin> set (allowed_tables_for_role (Some ''planner''))
   \<and> allowed_tables_for_role (Some ''admin'')
       = [''meter_table'', ''customer_table'', ''revenue_data'']"
proof -
  have "map_of ROLE_TABLES (lower r) = None \<longrightarrow> allowed_tables_for_role (Some r) = []"
    by (simp add: allowed_tables_for_role_def)
  moreover have "allowed_tables_for_role None = []" by code_simp
  moreover have "allowed_tables_for_role (Some []) = []" by code_simp
  moreover have "allowed_tables_for_role (Some ''planner'') = [''meter_table'', ''customer_table'']"
    by code_simp
  moreover have "''revenue_data'' \<notin> set (allowed_tables_for_role (Some ''planner''))"
    by code_simp
  moreover have "allowed_tables_for_role (Some ''admin'')
       = [''meter_table'', ''customer_table'', ''revenue_data'']"
    by code_simp
  ultimately show ?thesis by blast
qed

theorem allowed_tables_deny_by_default_witness:
  "map_of ROLE_TABLES (lower ''Guest'') = None \<and> allowed_tables_for_role (Some ''Guest'') = []"
proof -
  have h: "map_of ROLE_TABLES (lower ''Guest'') = None" by code_simp
  show ?thesis using h allowed_tables_deny_by_default [of "''Guest''"] by blast
qed

section \<open>The executor: authorization\<close>

lemma first_unauthorized_Some:
  "first_unauthorized ts allowed = Some t
   \<Longrightarrow> t \<in> set ts \<and> t \<notin> set allowed \<and> t \<notin> set skip_tokens \<and> \<not> looks_like_call t"
  by (induction ts) (auto split: if_splits)








lemma run_transaction_not_unauthorized:
  "fst (run_transaction eng q db) \<noteq> UnauthorizedResult m t"
  by (auto simp: run_transaction_def Let_def split: option.splits prod.splits sum.splits)

lemma secure_run_query_Unauthorized:
  "fst (secure_run_query eng sql allowed n db) = UnauthorizedResult m t
   \<Longrightarrow> first_unauthorized (extract_table_names sql) allowed = Some t"
  using run_transaction_not_unauthorized [of eng "add_limit sql n" db m t]
  by (auto simp: secure_run_query_def Let_def split: if_splits option.splits prod.splits)




text \<open>
  C10. The legacy wrapper is \<open>secure_run_query\<close> with the three tables of the schema as the
  allowed list, for every statement and row cap; no role enters, and the unauthorized-table
  failure is never returned for one of the three tables.
\<close>

theorem run_query_is_admin_secure_run_query:
  "run_query eng q max_rows db
     = secure_run_query eng q [''meter_table'', ''customer_table'', ''revenue_data''] max_rows db
   \<and> (\<forall>m t. fst (run_query eng q max_rows db) = UnauthorizedResult m t
         \<longrightarrow> t \<notin> {''meter_table'', ''customer_table'', ''revenue_data''})"
proof -
  have eq: "run_query eng q max_rows db
     = secure_run_query eng q [''meter_table'', ''customer_table'', ''revenue_data''] max_rows db"
    by (simp add: run_query_def)
  have "t \<notin> {''meter_table'', ''customer_table'', ''revenue_data''}"
    if "fst (run_query eng q max_rows db) = UnauthorizedResult m t" for m t
    using secure_run_query_Unauthorized [of eng q _ max_rows db m t] that
      first_unauthorized_Some [of "extract_table_names q" _ t]
    unfolding eq by fastforce
  with eq show ?thesis by blast
qed

theorem run_query_is_admin_secure_run_query_witness:
  "fst (run_query demo_engine two_tables_sql 50 [1, 2, 3])
     = UnauthorizedResult (unauthorized_message ''billing'') ''billing''
   \<and> ''billing'' \<notin> {''meter_table'', ''customer_table'', ''revenue_data''}
   \<and> run_query demo_engine scenario_A_sql 50 [1, 2, 3]
       = secure_run_query demo_engine scenario_A_sql admin_tables 50 [1, 2, 3]
   \<and> fst (run_query demo_engine scenario_A_sql 50 [1, 2, 3]) = RowsResult [1, 2, 3] [''id'']"
proof -
  have a: "fst (run_query demo_engine two_tables_sql 50 [1, 2, 3])
     = UnauthorizedResult (unauthorized_message ''billing'') ''billing''" by code_simp
  have b: "fst (run_query demo_engine scenario_A_sql 50 [1, 2, 3]) = RowsResult [1, 2, 3] [''id'']"
    by code_simp
  have c: "admin_tables = [''meter_table'', ''customer_table'', ''revenue_data'']"
    by (simp add: admin_tables_def)
  from run_query_is_admin_secure_run_query [of demo_engine two_tables_sql 50 "[1, 2, 3]"] a
  have "''billing'' \<notin> {''meter_table'', ''customer_table'', ''revenue_data''}" by blast
  with a b c run_query_is_admin_secure_run_query [of demo_engine scenario_A_sql 50 "[1, 2, 3]"]
  show ?thesis by simp
qed

section \<open>The executor: the transaction\<close>









section \<open>The executor: the row cap\<close>

text \<open>
  C6. The executor is to cap every read query that has no limit clause of its own; the
  comment above the lines says \<open>Ensure SELECT queries don't return the whole DB
  accidentally\<close>. The code decides by the text: it looks for \<open>" limit "\<close> anywhere in the
  lower-cased statement. The statement \<open>SELECT * FROM meter_table WHERE x <> ' limit '\<close>
  starts with \<open>select\<close>, is accepted by the validator and authorized, and has no limit
  clause, only a string literal with the word in it: nothing is appended, the statement is
  executed as it is, and with a cap of 2 the three rows of the store come back. The same
  table read without the literal is capped.
\<close>

theorem select_with_limit_literal_uncapped:
  "startswith (lower (strip literal_sql)) ''select''
   \<and> is_safe_statement literal_sql
   \<and> first_unauthorized (extract_table_names literal_sql) admin_tables = None
   \<and> add_limit literal_sql 2 = literal_sql
   \<and> fst (secure_run_query demo_engine literal_sql admin_tables 2 [1, 2, 3])
       = RowsResult [1, 2, 3] [''id'']
   \<and> add_limit select_sql 2 = ''SELECT * FROM meter_table LIMIT 2;''
   \<and> fst (secure_run_query demo_engine select_sql admin_tables 2 [1, 2, 3])
       = RowsResult [1, 2] [''id'']"
  by code_simp

section \<open>The chart renderer: downsampling\<close>

lemma length_stride: "length (stride m xs) = (length xs + m) div Suc m"
proof (induction m xs rule: stride.induct)
  case (1 m)
  then show ?case by simp
next
  case (2 m x xs)
  show ?case
  proof (cases "m \<le> length xs")
    case True
    then have "(length (drop m xs) + m) div Suc m = length xs div Suc m" by simp
    moreover have "(length (x # xs) + m) div Suc m = Suc (length xs div Suc m)"
      using div_add_self2 [of "Suc m" "length xs"] by (simp add: add.commute)
    ultimately show ?thesis using 2 by simp
  next
    case False
    then have d: "drop m xs = []" by simp
    from False have "Suc m \<le> length (x # xs) + m" "length (x # xs) + m < 2 * Suc m"
      by simp_all
    then have "(length (x # xs) + m) div Suc m = 1"
      by (metis One_nat_def div_nat_eqI mult.commute mult.right_neutral mult_2_right
          nat_mult_1 mult_Suc_right)
    with d show ?thesis by simp
  qed
qed

lemma nth_stride: "i < length (stride m xs) \<Longrightarrow> stride m xs ! i = xs ! (i * Suc m)"
proof (induction m xs arbitrary: i rule: stride.induct)
  case (1 m)
  then show ?case by simp
next
  case (2 m x xs)
  show ?case
  proof (cases i)
    case 0
    then show ?thesis by simp
  next
    case (Suc j)
    with 2(2) have j: "j < length (stride m (drop m xs))" by simp
    then have "stride m (drop m xs) \<noteq> []" by auto
    then have "drop m xs \<noteq> []" by auto
    then have m: "m \<le> length xs" by simp
    from "2.IH" [OF j] have "stride m (drop m xs) ! j = drop m xs ! (j * Suc m)" .
    also have "\<dots> = xs ! (m + j * Suc m)" using m by simp
    finally show ?thesis using Suc by (simp add: ac_simps)
  qed
qed

lemma subseq_stride: "subseq (stride m xs) xs"
proof (induction m xs rule: stride.induct)
  case (1 m)
  then show ?case by simp
next
  case (2 m x xs)
  have "subseq (drop m xs) xs" using suffix_drop by (rule suffix_imp_subseq)
  with 2 have "subseq (stride m (drop m xs)) xs" by (blast intro: subseq_order.trans)
  then show ?case by simp
qed

lemma downsample_401:
  "downsample [0..<401] [0..<401] = Inr (map ((*) 2) [0..<201], map ((*) 2) [0..<201])"
  by code_simp

text \<open>
  C8, as stated, fails: a series of 401 points is sampled with step 2, and 201 points
  are kept, one more than \<open>floor(401 / 2) = 200\<close>.
\<close>

theorem downsample_length_counterexample:
  "MAX_POINTS < length [0..<401]
   \<and> downsample [0..<401] [0..<401]
       = Inr (map ((*) 2) [0..<201], map ((*) 2) [0..<201])
   \<and> length (map ((*) (2::nat)) [0..<201]) = 201
   \<and> length [0..<401] div (length [0..<401] div MAX_POINTS) = 200"
  using downsample_401 by (simp add: MAX_POINTS_def)

text \<open>
  C8, amended. For a series of \<open>n\<close> points with \<open>n\<close> over the budget of 200, the shaper takes
  \<open>step = floor(n / 200)\<close> and keeps the points at the positions \<open>0, step, 2 step, ...\<close>: the
  kept series has \<open>ceil(n / step)\<close> points, its \<open>i\<close>-th point is the input's point
  \<open>i * step\<close>, and it is a subsequence of the input, so the order of the input is kept and
  the first kept point is the first point of the input.
\<close>

theorem downsample_keeps_every_step:
  assumes n: "MAX_POINTS < length dates" and l: "length vals = length dates"
  shows "\<exists>ds vs. downsample dates vals = Inr (ds, vs)
       \<and> 0 < length dates div MAX_POINTS
       \<and> length ds
           = (length dates + length dates div MAX_POINTS - 1) div (length dates div MAX_POINTS)
       \<and> length vs = length ds
       \<and> (\<forall>i<length ds. ds ! i = dates ! (i * (length dates div MAX_POINTS))
                       \<and> vs ! i = vals ! (i * (length dates div MAX_POINTS)))
       \<and> subseq ds dates \<and> subseq vs vals
       \<and> hd ds = hd dates"
proof -
  define step where "step = length dates div MAX_POINTS"
  from n have "MAX_POINTS \<le> length dates" "0 < MAX_POINTS" by (simp_all add: MAX_POINTS_def)
  then have pos: "0 < step" unfolding step_def by (simp add: div_greater_zero_iff)
  then obtain m where m: "step = Suc m" by (cases step) auto
  let ?ds = "stride m dates" and ?vs = "stride m vals"
  have d: "downsample dates vals = Inr (?ds, ?vs)"
    using n m by (simp add: downsample_def slice_step_def Let_def step_def [symmetric])
  have ld: "length ?ds = (length dates + step - 1) div step"
    by (simp add: length_stride m)
  have lv: "length ?vs = length ?ds" by (simp add: length_stride l)
  have nth: "\<forall>i<length ?ds. ?ds ! i = dates ! (i * step) \<and> ?vs ! i = vals ! (i * step)"
    using nth_stride [of _ m dates] nth_stride [of _ m vals] lv by (simp add: m)
  have "dates \<noteq> []" using n by auto
  then have h: "hd ?ds = hd dates" by (cases dates) auto
  from d pos ld lv nth subseq_stride [of m dates] subseq_stride [of m vals] h
  show ?thesis unfolding step_def by blast
qed

theorem downsample_keeps_every_step_witness:
  "MAX_POINTS < length [0..<401]
   \<and> length [0..<401] = length [0..<401]
   \<and> downsample [0..<401] [0..<401]
       = Inr (map ((*) 2) [0..<201], map ((*) 2) [0..<201])
   \<and> length (map ((*) (2::nat)) [0..<201])
       = (length [0..<401] + length [0..<401] div MAX_POINTS - 1)
           div (length [0..<401] div MAX_POINTS)
   \<and> subseq (map ((*) 2) [0..<201]) [0..<401]"
proof -
  have n: "MAX_POINTS < length [0..<401]" by (simp add: MAX_POINTS_def)
  have l: "length [0..<401] = length [0..<401]" by simp
  from downsample_keeps_every_step [OF n l] downsample_401
  have "subseq (map ((*) 2) [0..<201]) [0..<401]" by auto
  with n downsample_401 show ?thesis by (simp add: MAX_POINTS_def)
qed

section \<open>The chart renderer: rows without a date\<close>

lemma try_formats_None:
  "try_formats sp fmts s = None \<longleftrightarrow> (\<forall>fmt\<in>set fmts. sp s fmt = None)"
  by (induction fmts) (auto split: option.splits)

lemma parse_datetime_safe_None:
  "parse_datetime_safe env c = None
   \<longleftrightarrow> (\<forall>fmt\<in>set datetime_formats. strptime env (str_of env c) fmt = None)
       \<and> strptime env (str_of env c @ ''-1'') week_format = None"
proof (cases "try_formats (strptime env) datetime_formats (str_of env c)")
  case None
  then show ?thesis
    using try_formats_None [of "strptime env" datetime_formats "str_of env c"]
    by (simp add: parse_datetime_safe_def Let_def)
next
  case (Some d)
  then show ?thesis
    using try_formats_None [of "strptime env" datetime_formats "str_of env c"]
    by (simp add: parse_datetime_safe_def Let_def)
qed

lemma collect_points_drop:
  "row_point env d v r = None
   \<Longrightarrow> collect_points env d v (pre @ r # post) = collect_points env d v (pre @ post)"
  by (induction pre) (auto split: prod.splits option.splits)

lemma collect_points_none:
  "(\<forall>r\<in>set rows. row_point env d v r = None) \<Longrightarrow> collect_points env d v rows = ([], [])"
  by (induction rows) auto

lemma render_graph_png_collect:
  "collect_points env (fst (column_indices columns)) (snd (column_indices columns)) rows
     = collect_points env (fst (column_indices columns)) (snd (column_indices columns)) rows'
   \<Longrightarrow> rows \<noteq> [] \<Longrightarrow> rows' \<noteq> []
   \<Longrightarrow> render_graph_png env rows columns = render_graph_png env rows' columns"
  by (cases "column_indices columns") (simp add: render_graph_png_def)

lemma render_graph_png_no_points:
  "collect_points env (fst (column_indices columns)) (snd (column_indices columns)) rows
     = ([], [])
   \<Longrightarrow> render_graph_png env rows columns = Inr None"
  by (cases "column_indices columns") (simp add: render_graph_png_def)

text \<open>
  C9. The date of a row parses when one of the four formats or the year-week format
  accepts it. A row whose date cell fails them all contributes no point, and the chart is
  the one drawn from the other rows: no exception leaves the function on its account.
  When no row contributes a point, and so when there is no row, the function returns
  \<open>None\<close> and raises nothing.
\<close>

theorem render_graph_png_drops_rows:
  "(parse_datetime_safe env c = None
      \<longleftrightarrow> (\<forall>fmt\<in>set datetime_formats. strptime env (str_of env c) fmt = None)
          \<and> strptime env (str_of env c @ ''-1'') week_format = None)
   \<and> (py_index r (fst (column_indices columns)) = Some c \<and> parse_datetime_safe env c = None
        \<longrightarrow> row_point env (fst (column_indices columns)) (snd (column_indices columns)) r = None
          \<and> render_graph_png env (pre @ r # post) columns
              = render_graph_png env (pre @ post) columns)
   \<and> ((\<forall>r\<in>set rows.
          row_point env (fst (column_indices columns)) (snd (column_indices columns)) r = None)
        \<longrightarrow> render_graph_png env rows columns = Inr None)
   \<and> render_graph_png env [] columns = Inr None"
proof -
  let ?d = "fst (column_indices columns)" and ?v = "snd (column_indices columns)"
  have a: "row_point env ?d ?v r = None
         \<and> render_graph_png env (pre @ r # post) columns
             = render_graph_png env (pre @ post) columns"
    if "py_index r ?d = Some c" and "parse_datetime_safe env c = None"
  proof -
    from that have rp: "row_point env ?d ?v r = None" by (simp add: row_point_def)
    then have cp: "collect_points env ?d ?v (pre @ r # post)
                     = collect_points env ?d ?v (pre @ post)"
      by (rule collect_points_drop)
    have "render_graph_png env (pre @ r # post) columns
            = render_graph_png env (pre @ post) columns"
    proof (cases "pre @ post = []")
      case True
      then have "collect_points env ?d ?v (pre @ r # post) = ([], [])" using cp by simp
      then have "render_graph_png env (pre @ r # post) columns = Inr None"
        by (rule render_graph_png_no_points)
      with True show ?thesis by (simp add: render_graph_png_def)
    next
      case False
      with cp show ?thesis by (intro render_graph_png_collect) simp_all
    qed
    with rp show ?thesis by simp
  qed
  have b: "render_graph_png env rows columns = Inr None"
    if "\<forall>r\<in>set rows. row_point env ?d ?v r = None"
    using collect_points_none [OF that] by (rule render_graph_png_no_points)
  have c: "render_graph_png env [] columns = Inr None" by (simp add: render_graph_png_def)
  from a b c parse_datetime_safe_None [of env c] show ?thesis by blast
qed

theorem render_graph_png_drops_rows_witness:
  "py_index [''bad'', ''11''] (fst (column_indices [''datetime'', ''load_kwh''])) = Some ''bad''
   \<and> parse_datetime_safe demo_env ''bad'' = None
   \<and> render_graph_png demo_env
         ([[''2024-01-01'', ''10'']] @ [''bad'', ''11''] # [[''2024-01-02'', ''12'']])
         [''datetime'', ''load_kwh'']
       = render_graph_png demo_env ([[''2024-01-01'', ''10'']] @ [[''2024-01-02'', ''12'']])
           [''datetime'', ''load_kwh'']
   \<and> render_graph_png demo_env ([[''2024-01-01'', ''10'']] @ [[''2024-01-02'', ''12'']])
         [''datetime'', ''load_kwh'']
       = Inr (Some ([''2024-01-01'', ''2024-01-02''], [10, 12], ''load_kwh''))
   \<and> row_point demo_env (fst (column_indices [''datetime'', ''load_kwh'']))
         (snd (column_indices [''datetime'', ''load_kwh''])) [''bad'', ''11''] = None
   \<and> render_graph_png demo_env [[''bad'', ''11'']] [''datetime'', ''load_kwh''] = Inr None"
proof -
  let ?cols = "[''datetime'', ''load_kwh'']"
  have i: "py_index [''bad'', ''11''] (fst (column_indices ?cols)) = Some ''bad''"
    by code_simp
  have p: "parse_datetime_safe demo_env ''bad'' = None" by code_simp
  have g: "render_graph_png demo_env ([[''2024-01-01'', ''10'']] @ [[''2024-01-02'', ''12'']])
         ?cols
       = Inr (Some ([''2024-01-01'', ''2024-01-02''], [10, 12], ''load_kwh''))"
    by code_simp
  note t = render_graph_png_drops_rows [of demo_env "''bad''" "[''bad'', ''11'']" ?cols]
  from t [of "[[''2024-01-01'', ''10'']]" "[[''2024-01-02'', ''12'']]" "[]"] i p
  have r: "row_point demo_env (fst (column_indices ?cols)) (snd (column_indices ?cols))
             [''bad'', ''11''] = None"
    and e: "render_graph_png demo_env
         ([[''2024-01-01'', ''10'']] @ [''bad'', ''11''] # [[''2024-01-02'', ''12'']]) ?cols
       = render_graph_png demo_env ([[''2024-01-01'', ''10'']] @ [[''2024-01-02'', ''12'']])
           ?cols"
    by blast+
  from t [of "[]" "[]" "[[''bad'', ''11'']]"] r
  have n: "render_graph_png demo_env [[''bad'', ''11'']] ?cols = Inr None" by simp
  from i p e g r n show ?thesis by blast
qed

end
